theory Spec2Isabelle
  imports Main "HOL-Library.Sublist" "HOL-Library.AList"
begin

section \<open>Python strings\<close>

text \<open>
  A Python \<open>str\<close> is modelled as a \<open>string\<close> whose characters stand for the code points
  0..255 (the Latin-1 range); code points beyond 255, such as the en and em dashes that two
  regular expressions of the program mention, cannot occur in a modelled string. The
  character classes are those of Python 3 on that range: \<open>str.isspace\<close> and the regex
  class \<open>\s\<close> agree, \<open>\w\<close> is the alphanumeric code points and the underscore,
  \<open>\d\<close> is the ten ASCII digits, and \<open>str.lower\<close> maps a code point to one code point.
\<close>

definition code_point :: "char \<Rightarrow> int" where
  "code_point c = of_char c"

definition isspace :: "char \<Rightarrow> bool" where
  "isspace c = (code_point c \<in> {9, 10, 11, 12, 13, 28, 29, 30, 31, 32, 133, 160})"

definition isword :: "char \<Rightarrow> bool" where
  "isword c = (let n = code_point c in
     (48 \<le> n \<and> n \<le> 57) \<or> (65 \<le> n \<and> n \<le> 90) \<or> n = 95 \<or> (97 \<le> n \<and> n \<le> 122) \<or>
     n \<in> {170, 178, 179, 181, 185, 186, 188, 189, 190} \<or>
     (192 \<le> n \<and> n \<noteq> 215 \<and> n \<noteq> 247))"

definition isdigit :: "char \<Rightarrow> bool" where
  "isdigit c = (let n = code_point c in 48 \<le> n \<and> n \<le> 57)"

definition lower_char :: "char \<Rightarrow> char" where
  "lower_char c = (let n = code_point c in
     if (65 \<le> n \<and> n \<le> 90) \<or> (192 \<le> n \<and> n \<le> 222 \<and> n \<noteq> 215)
     then char_of (n + 32) else c)"

definition lower :: "string \<Rightarrow> string" where
  "lower s = map lower_char s"

definition lstrip :: "string \<Rightarrow> string" where
  "lstrip s = dropWhile isspace s"

definition rstrip :: "string \<Rightarrow> string" where
  "rstrip s = rev (dropWhile isspace (rev s))"

definition strip :: "string \<Rightarrow> string" where
  "strip s = rstrip (lstrip s)"

text \<open>\<open>t in s\<close> on two strings: \<open>t\<close> occurs in \<open>s\<close> as a contiguous run.\<close>

fun contains :: "string \<Rightarrow> string \<Rightarrow> bool" where
  "contains t [] = (t = [])"
| "contains t (c # cs) = (prefix t (c # cs) \<or> contains t cs)"

text \<open>\<open>sep.join(parts)\<close>.\<close>

fun join :: "string \<Rightarrow> string list \<Rightarrow> string" where
  "join sep [] = []"
| "join sep [p] = p"
| "join sep (p # q # ps) = p @ sep @ join sep (q # ps)"

section \<open>Team names and normalization\<close>

definition CANON_TEAMS :: "string list" where
  "CANON_TEAMS = [
     ''Atlanta Hawks'', ''Boston Celtics'', ''Brooklyn Nets'', ''Charlotte Hornets'',
     ''Chicago Bulls'', ''Cleveland Cavaliers'', ''Dallas Mavericks'', ''Denver Nuggets'',
     ''Detroit Pistons'', ''Golden State Warriors'', ''Houston Rockets'', ''Indiana Pacers'',
     ''Los Angeles Clippers'', ''Los Angeles Lakers'', ''Memphis Grizzlies'', ''Miami Heat'',
     ''Milwaukee Bucks'', ''Minnesota Timberwolves'', ''New Orleans Pelicans'',
     ''New York Knicks'', ''Oklahoma City Thunder'', ''Orlando Magic'', ''Philadelphia 76ers'',
     ''Phoenix Suns'', ''Portland Trail Blazers'', ''Sacramento Kings'', ''San Antonio Spurs'',
     ''Toronto Raptors'', ''Utah Jazz'', ''Washington Wizards'']"

text \<open>
  The alias table of the latest script (main9.py); main5.py and main8.py have its first
  eight entries and the same \<open>_clean\<close>.
\<close>

definition ALIASES :: "(string \<times> string) list" where
  "ALIASES = [
     (''la clippers'', ''los angeles clippers''),
     (''la lakers'', ''los angeles lakers''),
     (''ny knicks'', ''new york knicks''),
     (''portland blazers'', ''portland trail blazers''),
     (''gs warriors'', ''golden state warriors''),
     (''okc thunder'', ''oklahoma city thunder''),
     (''phx suns'', ''phoenix suns''),
     (''76ers'', ''philadelphia 76ers''),
     (''san antonio'', ''san antonio spurs''),
     (''new orleans'', ''new orleans pelicans'')]"

text \<open>\<open>re.sub(r"[^\w\s]", " ", s)\<close>: every character that is neither a word character nor
  whitespace becomes one space.\<close>

definition sub_punct :: "string \<Rightarrow> string" where
  "sub_punct s = map (\<lambda>c. if \<not> isword c \<and> \<not> isspace c then CHR '' '' else c) s"

text \<open>\<open>re.sub(r"\s+", " ", s)\<close>: every maximal run of whitespace becomes one space.\<close>

function sub_spaces :: "string \<Rightarrow> string" where
  "sub_spaces [] = []"
| "sub_spaces (c # cs) =
     (if isspace c then CHR '' '' # sub_spaces (dropWhile isspace cs)
      else c # sub_spaces cs)"
  by pat_completeness auto
termination
  by (relation "measure length") (auto simp: length_dropWhile_le less_Suc_eq_le)

text \<open>
  \<open>re.sub(r"\bla\b", "los angeles", s)\<close>, scanning from the left. The flag says whether
  the character before the current position is a word character (false at the start of
  the string), so \<open>\b\<close> holds before an \<open>l\<close> exactly when the flag is false; \<open>\b\<close>
  holds after the \<open>a\<close> when the string ends there or a non-word character follows. After
  a replacement the scan goes on behind the \<open>a\<close>.
\<close>

definition la_at :: "string \<Rightarrow> bool" where
  "la_at s = (take 2 s = ''la'' \<and> (case drop 2 s of [] \<Rightarrow> True | d # _ \<Rightarrow> \<not> isword d))"

fun sub_la_from :: "bool \<Rightarrow> string \<Rightarrow> string" where
  "sub_la_from pw [] = []"
| "sub_la_from pw (c # cs) =
     (if \<not> pw \<and> la_at (c # cs) then ''los angeles'' @ sub_la_from True (drop 1 cs)
      else c # sub_la_from (isword c) cs)"

definition sub_la :: "string \<Rightarrow> string" where
  "sub_la s = sub_la_from False s"

text \<open>\<open>_clean\<close>; the name loses its leading underscore, which Isabelle does not allow.\<close>

definition clean :: "string \<Rightarrow> string" where
  "clean s0 =
     (let s = strip (lower s0);
          s = sub_punct s;
          s = sub_spaces s;
          s = sub_la s;
          s = strip s
      in case map_of ALIASES s of Some v \<Rightarrow> v | None \<Rightarrow> s)"

definition CANON_SET :: "string set" where
  "CANON_SET = set (map clean CANON_TEAMS)"

definition is_team_name :: "string \<Rightarrow> bool" where
  "is_team_name text = (clean text \<in> CANON_SET)"

text \<open>
  \<open>canonicalize\<close>: the loop over the roster returns at the first team whose cleaned name
  is the key; when the loop ends without a return, and when the key is not in the set,
  control reaches the final \<open>return text.strip()\<close>. No path of the source raises.
\<close>

definition canonicalize :: "string \<Rightarrow> string" where
  "canonicalize text =
     (let key = clean text in
      if key \<in> CANON_SET then
        (case find (\<lambda>t. clean t = key) CANON_TEAMS of
           Some t \<Rightarrow> t
         | None \<Rightarrow> strip text)
      else strip text)"


section \<open>Errors\<close>

text \<open>The exceptions that leave a modelled function, as values.\<close>

datatype error =
    HTTPError
  | KeyError
  | IndexError
  | TypeError
  | RuntimeError string

section \<open>Schedule aggregation\<close>

text \<open>
  A date is its day number (\<open>date.toordinal()\<close>), so adding \<open>timedelta(days=n)\<close> adds
  \<open>n\<close>; the year range of \<open>datetime.date\<close>, outside which the addition raises, is not
  modelled. \<open>dt.date.today()\<close> is the parameter \<open>today\<close>. A game record is the dict
  with the keys \<open>date\<close>, \<open>home\<close> and \<open>away\<close> that every loader builds.
\<close>

record game =
  date :: int
  home :: string
  away :: string

datatype venue = HOME | AWAY

type_synonym opponent_entry = "int \<times> string \<times> venue"

text \<open>
  \<open>by_team\<close> is a \<open>defaultdict(list)\<close>: an association list in insertion order.
  \<open>by_team[k].append(e)\<close> creates the empty list for a new key.
\<close>

type_synonym by_team = "(string \<times> opponent_entry list) list"

definition append_entry :: "string \<Rightarrow> opponent_entry \<Rightarrow> by_team \<Rightarrow> by_team" where
  "append_entry k e bt =
     AList.update k ((case map_of bt k of None \<Rightarrow> [] | Some es \<Rightarrow> es) @ [e]) bt"

text \<open>\<open>for k in list(by_team.keys()): by_team[k].sort(key=lambda x: x[0])\<close>; the sort is
  stable.\<close>

definition sort_by_date :: "by_team \<Rightarrow> by_team" where
  "sort_by_date bt = map (\<lambda>(k, es). (k, sort_key fst es)) bt"

subsection \<open>main9.py: live scoreboard and day-granular future feed\<close>

definition add_game :: "int \<Rightarrow> int \<Rightarrow> string set \<Rightarrow> game \<Rightarrow> by_team \<Rightarrow> by_team" where
  "add_game today end want g bt =
     (let d = date g; h = home g; a = away g in
      if \<not> (today \<le> d \<and> d \<le> end) then bt
      else
        (let bt = (if clean h \<in> want then append_entry h (d, a, HOME) bt else bt)
         in if clean a \<in> want then append_entry a (d, h, AWAY) bt else bt))"

definition upcoming_opponents_next_week_v9 ::
  "int \<Rightarrow> game list \<Rightarrow> game list \<Rightarrow> string list \<Rightarrow> int \<Rightarrow> by_team" where
  "upcoming_opponents_next_week_v9 today todays_games future_games teams days =
     (let end = today + (days - 1);
          want = set (map clean teams);
          bt = fold (add_game today end want) todays_games [];
          bt = fold (add_game today end want) future_games bt
      in sort_by_date bt)"

text \<open>
  The third-party scoreboard: one request per date. A response is \<open>None\<close> when the request
  or the decoding raises, else the status code and the events; an event is the competitor
  list of its first competition. Absent JSON fields are empty strings.
\<close>

record competitor =
  homeAway :: string
  displayName :: string
  location :: string
  name :: string

definition competitor_name :: "competitor \<Rightarrow> string" where
  "competitor_name t =
     canonicalize (if displayName t \<noteq> [] then displayName t
                   else strip (location t @ '' '' @ name t))"

definition event_names :: "competitor list \<Rightarrow> string option \<times> string option" where
  "event_names teams =
     fold (\<lambda>t (home_name, away_name).
             if homeAway t = ''home'' then (Some (competitor_name t), away_name)
             else (home_name, Some (competitor_name t)))
          teams (None, None)"

definition fetch_espn_games_for_date :: "int \<times> competitor list list \<Rightarrow> int \<Rightarrow> game list" where
  "fetch_espn_games_for_date r d =
     (if fst r \<noteq> 200 then []
      else concat (map (\<lambda>ev.
             case event_names ev of
               (Some h, Some a) \<Rightarrow>
                 if h \<noteq> [] \<and> a \<noteq> [] then [\<lparr>date = d, home = h, away = a\<rparr>] else []
             | _ \<Rightarrow> []) (snd r)))"

definition load_future_games_from_espn ::
  "(int \<Rightarrow> (int \<times> competitor list list) option) \<Rightarrow> int \<Rightarrow> int \<Rightarrow> game list" where
  "load_future_games_from_espn espn today days_ahead =
     concat (map (\<lambda>i. case espn (today + i) of
                         None \<Rightarrow> []
                       | Some r \<Rightarrow> fetch_espn_games_for_date r (today + i))
                 [1..days_ahead])"

subsection \<open>main8.py: live scoreboard and season schedule\<close>

text \<open>\<open>sched_by_date\<close>, a \<open>defaultdict(list)\<close> read with \<open>.get(cur, [])\<close>: a function
  from dates to lists, empty where nothing was stored.\<close>

definition index_schedule :: "int \<Rightarrow> int \<Rightarrow> game list \<Rightarrow> int \<Rightarrow> game list" where
  "index_schedule today end league_schedule =
     fold (\<lambda>g m. if today \<le> date g \<and> date g \<le> end then m(date g := m (date g) @ [g]) else m)
          league_schedule (\<lambda>_. [])"

definition add_live :: "string set \<Rightarrow> game \<Rightarrow> by_team \<Rightarrow> by_team" where
  "add_live want g bt =
     (let d = date g; h = home g; a = away g;
          bt = (if clean h \<in> want then append_entry h (d, a, HOME) bt else bt)
      in if clean a \<in> want then append_entry a (d, h, AWAY) bt else bt)"

definition add_scheduled :: "string set \<Rightarrow> int \<Rightarrow> game \<Rightarrow> by_team \<Rightarrow> by_team" where
  "add_scheduled want cur g bt =
     (let h = home g; a = away g;
          bt = (if clean h \<in> want then append_entry h (cur, a, HOME) bt else bt)
      in if clean a \<in> want then append_entry a (cur, h, AWAY) bt else bt)"

function future_days ::
  "string set \<Rightarrow> (int \<Rightarrow> game list) \<Rightarrow> int \<Rightarrow> int \<Rightarrow> by_team \<Rightarrow> by_team" where
  "future_days want sched_by_date end cur bt =
     (if cur \<le> end
      then future_days want sched_by_date end (cur + 1)
             (fold (add_scheduled want cur) (sched_by_date cur) bt)
      else bt)"
  by pat_completeness auto
termination
  by (relation "measure (\<lambda>(want, sched_by_date, end, cur, bt). nat (end + 1 - cur))") auto

definition upcoming_opponents_next_week_v8 ::
  "int \<Rightarrow> game list \<Rightarrow> game list \<Rightarrow> string list \<Rightarrow> int \<Rightarrow> by_team" where
  "upcoming_opponents_next_week_v8 today todays_games league_schedule teams days =
     (let end = today + (days - 1);
          want = set (map clean teams);
          sched_by_date = index_schedule today end league_schedule;
          bt = fold (add_live want) todays_games [];
          bt = future_days want sched_by_date end (today + 1) bt
      in sort_by_date bt)"

subsection \<open>main1.py: one dated scoreboard per day\<close>

definition date_range_days :: "int \<Rightarrow> int \<Rightarrow> int list" where
  "date_range_days start days = map (\<lambda>i. start + i) [0..days]"

text \<open>
  A scoreboard game as the loop reads it: the team id and tricode of the home and the
  visiting team (empty when absent). The teams index is a dict in insertion order.
  A scoreboard request that fails with a status other than 404 raises.
\<close>

record scoreboard_game =
  h_teamId :: string
  h_triCode :: string
  v_teamId :: string
  v_triCode :: string

record team_entry =
  teamId :: string
  tricode :: string
  fullName :: string
  nickname :: string

definition full_by_tid :: "(string \<times> team_entry) list \<Rightarrow> string \<Rightarrow> string \<Rightarrow> string" where
  "full_by_tid teams_index tid fallback_tri =
     (case find (\<lambda>entry. teamId entry = tid) (map snd teams_index) of
        Some entry \<Rightarrow> fullName entry
      | None \<Rightarrow>
          (case find (\<lambda>entry. tricode entry = fallback_tri) (map snd teams_index) of
             Some entry \<Rightarrow> fullName entry
           | None \<Rightarrow> if fallback_tri \<noteq> [] then fallback_tri else tid))"

definition add_scoreboard_game ::
  "string list \<Rightarrow> (string \<times> team_entry) list \<Rightarrow> int \<Rightarrow> scoreboard_game \<Rightarrow> by_team \<Rightarrow> by_team" where
  "add_scoreboard_game team_ids teams_index d g bt =
     (let hid = strip (h_teamId g); vid = strip (v_teamId g);
          bt = (if hid \<in> set team_ids
                then append_entry hid (d, full_by_tid teams_index vid (v_triCode g), HOME) bt
                else bt)
      in if vid \<in> set team_ids
         then append_entry vid (d, full_by_tid teams_index hid (h_triCode g), AWAY) bt
         else bt)"

fun scan_dates ::
  "(int \<Rightarrow> error + scoreboard_game list) \<Rightarrow> string list \<Rightarrow> (string \<times> team_entry) list \<Rightarrow>
   int list \<Rightarrow> by_team \<Rightarrow> error + by_team" where
  "scan_dates scoreboard team_ids teams_index [] bt = Inr bt"
| "scan_dates scoreboard team_ids teams_index (d # ds) bt =
     (case scoreboard d of
        Inl e \<Rightarrow> Inl e
      | Inr games \<Rightarrow>
          scan_dates scoreboard team_ids teams_index ds
            (fold (add_scoreboard_game team_ids teams_index d) games bt))"

definition upcoming_opponents_next_week_v1 ::
  "(int \<Rightarrow> error + scoreboard_game list) \<Rightarrow> int \<Rightarrow> string list \<Rightarrow>
   (string \<times> team_entry) list \<Rightarrow> int \<Rightarrow> error + by_team" where
  "upcoming_opponents_next_week_v1 scoreboard today team_ids teams_index days =
     (case scan_dates scoreboard team_ids teams_index (date_range_days today days) [] of
        Inl e \<Rightarrow> Inl e
      | Inr bt \<Rightarrow> Inr (sort_by_date bt))"

text \<open>The opponent entries of a result, whatever the team.\<close>

definition entries_of :: "by_team \<Rightarrow> opponent_entry set" where
  "entries_of bt = (\<Union>(k, es)\<in>set bt. set es)"

section \<open>Article selection (main8.py, the same in main5.py, main7.py and main9.py)\<close>

text \<open>
  A \<open>datetime\<close> is naive (no time zone; the microseconds since \<open>datetime.min\<close>) or aware
  (an instant, as microseconds on the same scale after conversion to UTC). Python orders two
  naive or two aware values and raises \<open>TypeError\<close> when asked to order a naive and an
  aware one.
\<close>

datatype datetime = Naive nat | Aware int

definition datetime_min :: datetime where
  "datetime_min = Naive 0"

fun is_aware :: "datetime \<Rightarrow> bool" where
  "is_aware (Naive n) = False"
| "is_aware (Aware i) = True"

fun ts_key :: "datetime \<Rightarrow> int" where
  "ts_key (Naive n) = int n"
| "ts_key (Aware i) = i"

text \<open>\<open>a < b\<close> on two datetimes.\<close>

definition datetime_less :: "datetime \<Rightarrow> datetime \<Rightarrow> error + bool" where
  "datetime_less a b =
     (if is_aware a = is_aware b then Inr (ts_key a < ts_key b) else Inl TypeError)"

text \<open>
  \<open>sorted(scored, key=lambda x: x[0], reverse=True)\<close>. The library sort is stable, also
  with \<open>reverse=True\<close> (elements with equal keys keep their order), and it orders the keys
  with \<open><\<close> alone. A sort of two or more elements compares every element with another one
  and links all of them by comparisons, so it compares a naive with an aware key, and
  raises, exactly when the list holds both kinds.
\<close>

definition comparable :: "datetime list \<Rightarrow> bool" where
  "comparable ts = (\<forall>a\<in>set ts. \<forall>b\<in>set ts. is_aware a = is_aware b)"

definition sorted_by_time_desc ::
  "(datetime \<times> string) list \<Rightarrow> error + (datetime \<times> string) list" where
  "sorted_by_time_desc scored =
     (if comparable (map fst scored)
      then Inr (rev (sort_key (\<lambda>x. ts_key (fst x)) (rev scored)))
      else Inl TypeError)"

text \<open>
  A fetched page as the selector reads it: whether it looks like a rankings article (the
  result of \<open>_looks_like_power_rankings_article\<close>), the \<open>content\<close> of the first
  \<open>article:published_time\<close> or \<open>publishDate\<close> meta tag, and the \<open>datetime\<close> of the first
  \<open>time\<close> tag (\<open>None\<close> where the tag or the attribute is missing). The two parsers of
  the datetime library are parameters: \<open>strptime content fmt\<close> and
  \<open>fromisoformat text\<close> give \<open>None\<close> where the library raises.
\<close>

record soup =
  looks_like_power_rankings_article :: bool
  meta_content :: "string option"
  time_datetime :: "string option"

datatype response = Raises | Response int soup

definition PUBLISH_FORMATS :: "string list" where
  "PUBLISH_FORMATS = [''%Y-%m-%dT%H:%M:%SZ'', ''%Y-%m-%dT%H:%M:%S%z'', ''%Y-%m-%d'']"

fun first_parsed :: "(string \<Rightarrow> datetime option) \<Rightarrow> string list \<Rightarrow> datetime option" where
  "first_parsed parse [] = None"
| "first_parsed parse (fmt # fmts) =
     (case parse fmt of Some ts \<Rightarrow> Some ts | None \<Rightarrow> first_parsed parse fmts)"

text \<open>\<open>s.replace("Z", "+00:00")\<close>.\<close>

definition replace_Z :: "string \<Rightarrow> string" where
  "replace_Z s = concat (map (\<lambda>c. if c = CHR ''Z'' then ''+00:00'' else [c]) s)"

definition extract_publish_time ::
  "(string \<Rightarrow> string \<Rightarrow> datetime option) \<Rightarrow> (string \<Rightarrow> datetime option) \<Rightarrow> soup \<Rightarrow>
   datetime option" where
  "extract_publish_time strptime fromisoformat s =
     (case (case meta_content s of
              Some content \<Rightarrow>
                if content \<noteq> [] then first_parsed (strptime content) PUBLISH_FORMATS else None
            | None \<Rightarrow> None) of
        Some ts \<Rightarrow> Some ts
      | None \<Rightarrow>
          (case time_datetime s of
             Some t \<Rightarrow> if t \<noteq> [] then fromisoformat (replace_Z t) else None
           | None \<Rightarrow> None))"

text \<open>The dedupe loop: first occurrences, in order.\<close>

fun dedupe :: "string list \<Rightarrow> string list \<Rightarrow> string list" where
  "dedupe seen [] = []"
| "dedupe seen (u # us) =
     (if u \<in> set seen then dedupe seen us else u # dedupe (u # seen) us)"

text \<open>
  One pass of the scoring loop: a request that raises, a status other than 200 and a page
  that does not look like a rankings article add nothing; otherwise the pair of the publish
  time, or \<open>datetime.min\<close> when there is none, and the URL is added.
\<close>

definition score_candidate ::
  "(string \<Rightarrow> response) \<Rightarrow> (string \<Rightarrow> string \<Rightarrow> datetime option) \<Rightarrow>
   (string \<Rightarrow> datetime option) \<Rightarrow> string \<Rightarrow> (datetime \<times> string) list" where
  "score_candidate get strptime fromisoformat u =
     (case get u of
        Raises \<Rightarrow> []
      | Response status_code s \<Rightarrow>
          if status_code \<noteq> 200 then []
          else if \<not> looks_like_power_rankings_article s then []
          else [(case extract_publish_time strptime fromisoformat s of
                   Some ts \<Rightarrow> ts
                 | None \<Rightarrow> datetime_min, u)])"

text \<open>
  \<open>get_latest_power_rankings_article\<close> from the candidate list on (the links of the index
  pages that pass \<open>_is_valid_article_href\<close>, made absolute). The sort is outside the
  \<open>try\<close> of the loop, so what it raises leaves the function. \<open>sorted(...)[0]\<close> is
  read only where \<open>scored\<close> is not empty, so its \<open>IndexError\<close> cannot occur.
\<close>

definition get_latest_power_rankings_article ::
  "(string \<Rightarrow> response) \<Rightarrow> (string \<Rightarrow> string \<Rightarrow> datetime option) \<Rightarrow>
   (string \<Rightarrow> datetime option) \<Rightarrow> string list \<Rightarrow> error + string" where
  "get_latest_power_rankings_article get strptime fromisoformat candidates =
     (case dedupe [] candidates of
        [] \<Rightarrow> Inl (RuntimeError
                ''Could not find any Power Rankings article links on index pages.'')
      | first # others \<Rightarrow>
          (let scored = concat (map (score_candidate get strptime fromisoformat)
                                    (take 12 (first # others)))
           in if scored = [] then Inr first
              else (case sorted_by_time_desc scored of
                      Inl e \<Rightarrow> Inl e
                    | Inr [] \<Rightarrow> Inl IndexError
                    | Inr (best # rest) \<Rightarrow> Inr (snd best))))"

section \<open>Rank extraction (main5.py, the same in main7.py, main8.py and main9.py)\<close>

subsection \<open>The parsed document\<close>

text \<open>
  A parsed document is a tree: a text node, or a tag with its name, its attributes and its
  children. \<open>descendants\<close> is the document order below a node, \<open>get_text\<close> joins the
  text nodes below it (with \<open>strip=True\<close>: stripped, the empty ones left out).
  Comments and other special strings are not modelled.
\<close>

datatype node = NavigableString string | Tag string "(string \<times> string) list" "node list"

fun descendants :: "node \<Rightarrow> node list" where
  "descendants (NavigableString s) = []"
| "descendants (Tag tname attrs children) = concat (map (\<lambda>c. c # descendants c) children)"

fun all_strings :: "node \<Rightarrow> string list" where
  "all_strings (NavigableString s) = [s]"
| "all_strings (Tag tname attrs children) = concat (map all_strings children)"

definition get_text :: "string \<Rightarrow> bool \<Rightarrow> node \<Rightarrow> string" where
  "get_text separator strip_flag n =
     join separator
       (if strip_flag then filter (\<lambda>s. s \<noteq> []) (map strip (all_strings n))
        else all_strings n)"

fun tag_name :: "node \<Rightarrow> string option" where
  "tag_name (NavigableString s) = None"
| "tag_name (Tag tname attrs children) = Some tname"

fun attr :: "node \<Rightarrow> string \<Rightarrow> string option" where
  "attr (NavigableString s) key = None"
| "attr (Tag tname attrs children) key = map_of attrs key"

text \<open>\<open>article.find_all([...])\<close>: the tags below the node with one of the names.\<close>

definition find_all :: "string list \<Rightarrow> node \<Rightarrow> node list" where
  "find_all names n =
     filter (\<lambda>d. case tag_name d of Some tname \<Rightarrow> tname \<in> set names | None \<Rightarrow> False)
       (descendants n)"

text \<open>\<open>tag.find("a", href=True)\<close>: the first \<open>a\<close> tag below the node that has an
  \<open>href\<close> attribute.\<close>

definition find_link :: "node \<Rightarrow> node option" where
  "find_link n =
     find (\<lambda>d. tag_name d = Some ''a'' \<and> attr d ''href'' \<noteq> None) (descendants n)"

subsection \<open>Numbers and text\<close>

text \<open>\<open>str(n)\<close> of an integer.\<close>

function digits :: "int \<Rightarrow> string" where
  "digits i = (if i < 10 then [char_of (48 + i)] else digits (i div 10) @ [char_of (48 + i mod 10)])"
  by pat_completeness auto
termination
  by (relation "measure nat") auto

definition str_int :: "int \<Rightarrow> string" where
  "str_int i = (if i < 0 then CHR ''-'' # digits (- i) else digits i)"

text \<open>\<open>int(s)\<close> of a string of decimal digits.\<close>

definition int_of_digits :: "string \<Rightarrow> int" where
  "int_of_digits ds = foldl (\<lambda>a c. 10 * a + (code_point c - 48)) 0 ds"

text \<open>\<open>s.split()\<close>: the maximal runs of characters that are not whitespace.\<close>

function split :: "string \<Rightarrow> string list" where
  "split s =
     (case dropWhile isspace s of
        [] \<Rightarrow> []
      | c # cs \<Rightarrow> takeWhile (\<lambda>x. \<not> isspace x) (c # cs) # split (dropWhile (\<lambda>x. \<not> isspace x) cs))"
  by pat_completeness auto
termination
proof (relation "measure length")
  fix s c cs assume a: "dropWhile isspace s = c # cs"
  have "length (dropWhile (\<lambda>x. \<not> isspace x) cs) \<le> length cs"
    by (rule length_dropWhile_le)
  moreover have "length (c # cs) \<le> length s"
    using length_dropWhile_le [of isspace s] a by simp
  ultimately show "(dropWhile (\<lambda>x. \<not> isspace x) cs, s) \<in> measure length"
    by simp
qed simp

text \<open>\<open>s.splitlines()\<close>: the line ends are \<open>\n\<close>, \<open>\r\<close>, \<open>\r\n\<close> and the code points
  11, 12, 28, 29, 30 and 133; a line end at the very end opens no further line.\<close>

definition is_line_end :: "char \<Rightarrow> bool" where
  "is_line_end c = (code_point c \<in> {10, 11, 12, 13, 28, 29, 30, 133})"

fun splitlines_from :: "string \<Rightarrow> string \<Rightarrow> string list" where
  "splitlines_from cur [] = (if cur = [] then [] else [cur])"
| "splitlines_from cur [c] =
     (if is_line_end c then [cur] else [cur @ [c]])"
| "splitlines_from cur (c # d # cs) =
     (if code_point c = 13 \<and> code_point d = 10 then cur # splitlines_from [] cs
      else if is_line_end c then cur # splitlines_from [] (d # cs)
      else splitlines_from (cur @ [c]) (d # cs))"

definition splitlines :: "string \<Rightarrow> string list" where
  "splitlines s = splitlines_from [] s"

subsection \<open>Strategy 1: marker adjacency\<close>

definition is_rank_marker :: "node \<Rightarrow> int \<Rightarrow> bool" where
  "is_rank_marker n rank =
     (case n of
        NavigableString s \<Rightarrow> strip s = CHR ''#'' # str_int rank
      | Tag tname attrs children \<Rightarrow> get_text [] True n = CHR ''#'' # str_int rank)"

text \<open>\<open>for t in CANON_TEAMS: if t in txt: ...; break\<close>: the first roster name that occurs
  in the text.\<close>

definition team_in :: "string \<Rightarrow> string option" where
  "team_in txt = find (\<lambda>t. contains t txt) CANON_TEAMS"

text \<open>
  The scan of the nodes behind a marker. \<open>found\<close> is \<open>None\<close> until a team is found; the
  names it can take are roster names, which are not empty, so the test \<open>if found\<close> is the
  test that it is set.
\<close>

fun scan_window :: "int \<Rightarrow> node list \<Rightarrow> string option" where
  "scan_window rank [] = None"
| "scan_window rank (nxt # rest) =
     (if is_rank_marker nxt (rank + 1) then None
      else
        (case nxt of
           NavigableString s \<Rightarrow> scan_window rank rest
         | Tag tname attrs children \<Rightarrow>
             (let txt = get_text '' '' True nxt in
              if tname = ''a'' \<and>
                 (case map_of attrs ''href'' of
                    Some href \<Rightarrow> href \<noteq> [] \<and> contains ''/team/'' href
                  | None \<Rightarrow> False) \<and>
                 is_team_name txt
              then Some (canonicalize txt)
              else
                (case (if txt \<noteq> [] then team_in txt else None) of
                   Some t \<Rightarrow> Some t
                 | None \<Rightarrow> scan_window rank rest))))"

text \<open>The loop over the nodes for one rank: behind each marker of the rank, the window of
  the nodes \<open>i + 1\<close> to \<open>min(i + 600, len(nodes)) - 1\<close>.\<close>

fun marker_scan :: "int \<Rightarrow> node list \<Rightarrow> string option" where
  "marker_scan rank [] = None"
| "marker_scan rank (n # rest) =
     (if is_rank_marker n rank
      then (case scan_window rank (take 599 rest) of
              Some found \<Rightarrow> Some found
            | None \<Rightarrow> marker_scan rank rest)
      else marker_scan rank rest)"

text \<open>A dict from ranks to names is an association list in insertion order.\<close>

definition strategy1 :: "node list \<Rightarrow> int \<Rightarrow> (int \<times> string) list" where
  "strategy1 nodes top_n =
     fold (\<lambda>rank results.
             case marker_scan rank nodes of
               Some found \<Rightarrow> AList.update rank found results
             | None \<Rightarrow> results)
          [1..top_n] []"

text \<open>\<open>[d[r] for r in rs]\<close>: a missing key raises \<open>KeyError\<close>.\<close>

fun lookup_all :: "(int \<times> string) list \<Rightarrow> int list \<Rightarrow> error + string list" where
  "lookup_all d [] = Inr []"
| "lookup_all d (r # rs) =
     (case map_of d r of
        None \<Rightarrow> Inl KeyError
      | Some v \<Rightarrow> (case lookup_all d rs of Inl e \<Rightarrow> Inl e | Inr vs \<Rightarrow> Inr (v # vs)))"

subsection \<open>Strategy 2: ordinal prefix\<close>

definition BLOCK_TAGS :: "string list" where
  "BLOCK_TAGS = [''h1'', ''h2'', ''h3'', ''h4'', ''h5'', ''p'', ''li'', ''strong'', ''div'', ''span'']"

text \<open>
  \<open>re.match(r"^\s*(\d{1,2})\s*[\.\)\-:]\s+(.+?)\s*(?:[-]\s+.*|\(.*|$)", txt)\<close>, without the
  en and em dashes of the two character classes. The leading whitespace, the one or two
  digits and the whitespace before the separator are matched greedily, and giving any of
  them back cannot help. The whitespace behind the separator is matched greedily and given
  back one character at a time; for each choice the name grows from one character on (a
  newline cannot be in it) until what follows is optional whitespace and then a dash with
  whitespace behind it, or an opening parenthesis, or the end of the text (or a last
  newline). The result is the number and the name.
\<close>

definition alt_ok :: "string \<Rightarrow> bool" where
  "alt_ok u =
     (case u of
        [] \<Rightarrow> True
      | [c] \<Rightarrow> c = CHR ''('' \<or> code_point c = 10
      | c # d # _ \<Rightarrow> (c = CHR ''-'' \<and> isspace d) \<or> c = CHR ''('')"

definition tail_ok :: "string \<Rightarrow> bool" where
  "tail_ok t = list_ex (\<lambda>j. alt_ok (drop j t)) [0..<Suc (length (takeWhile isspace t))]"

fun lazy_name :: "string \<Rightarrow> string \<Rightarrow> string option" where
  "lazy_name acc [] = None"
| "lazy_name acc (c # cs) =
     (if code_point c = 10 then None
      else if tail_ok cs then Some (acc @ [c])
      else lazy_name (acc @ [c]) cs)"

fun first_some :: "'a option list \<Rightarrow> 'a option" where
  "first_some [] = None"
| "first_some (Some x # xs) = Some x"
| "first_some (None # xs) = first_some xs"

definition match_ordinal :: "string \<Rightarrow> (int \<times> string) option" where
  "match_ordinal txt =
     (let s1 = dropWhile isspace txt;
          ds = takeWhile isdigit (take 2 s1)
      in if ds = [] then None
         else
           (case dropWhile isspace (drop (length ds) s1) of
              [] \<Rightarrow> None
            | c # s3 \<Rightarrow>
                if c \<notin> set ''.)-:'' then None
                else
                  (let m = length (takeWhile isspace s3)
                   in case first_some (map (\<lambda>k. lazy_name [] (drop k s3)) (rev [1..<Suc m])) of
                        None \<Rightarrow> None
                      | Some group2 \<Rightarrow> Some (int_of_digits ds, group2))))"

text \<open>One pass of the loop over the block tags: the candidates it appends.\<close>

definition block_candidate :: "node \<Rightarrow> (int \<times> string) list" where
  "block_candidate tag =
     (let txt = join '' '' (split (get_text '' '' False tag)) in
      case match_ordinal txt of
        None \<Rightarrow> []
      | Some (rnk, group2) \<Rightarrow>
          (let nm = strip group2;
               nm = (case find_link tag of
                         Some a \<Rightarrow>
                           if contains ''/team/'' (case attr a ''href'' of Some h \<Rightarrow> h | None \<Rightarrow> [])
                           then (let link_text = get_text '' '' True a
                                 in if link_text \<noteq> [] then link_text else nm)
                           else nm
                       | None \<Rightarrow> nm)
           in if is_team_name nm then [(rnk, canonicalize nm)] else []))"

definition strategy2 :: "node list \<Rightarrow> (int \<times> string) list" where
  "strategy2 blocks =
     fold (\<lambda>(rnk, nm) by_rank.
             if 1 \<le> rnk \<and> rnk \<le> 30 \<and> map_of by_rank rnk = None
             then AList.update rnk nm by_rank else by_rank)
          (concat (map block_candidate blocks)) []"

text \<open>\<open>xs[:n]\<close>.\<close>

definition slice_to :: "int \<Rightarrow> 'a list \<Rightarrow> 'a list" where
  "slice_to n xs = (if 0 \<le> n then take (nat n) xs else take (length xs - nat (- n)) xs)"

subsection \<open>Strategy 3: line windows\<close>

text \<open>
  \<open>re.compile(rf"^(?:#|No\.\s*)?{rnk}(?:[\.\)\-: ]|$)").match(line)\<close>, again without the
  two dashes beyond the modelled code points.
\<close>

definition pat_tail :: "string \<Rightarrow> bool" where
  "pat_tail rest =
     (case rest of
        [] \<Rightarrow> True
      | c # cs \<Rightarrow> c \<in> set ''.)-: '' \<or> (code_point c = 10 \<and> cs = []))"

definition pat_from :: "int \<Rightarrow> string \<Rightarrow> bool" where
  "pat_from rnk s = (prefix (str_int rnk) s \<and> pat_tail (drop (length (str_int rnk)) s))"

definition pat_match :: "int \<Rightarrow> string \<Rightarrow> bool" where
  "pat_match rnk line =
     ((prefix ''#'' line \<and> pat_from rnk (drop 1 line)) \<or>
      (prefix ''No.'' line \<and> pat_from rnk (dropWhile isspace (drop 3 line))) \<or>
      pat_from rnk line)"

fun line_scan :: "int \<Rightarrow> (int \<times> string) list \<Rightarrow> string list \<Rightarrow> (int \<times> string) list" where
  "line_scan rnk by_rank [] = by_rank"
| "line_scan rnk by_rank (line # rest) =
     (if pat_match rnk line
      then
        (let window = join '' '' (take 3 (line # rest));
             by_rank = (case team_in window of
                          Some t \<Rightarrow> AList.update rnk t by_rank
                        | None \<Rightarrow> by_rank)
         in if map_of by_rank rnk \<noteq> None then by_rank else line_scan rnk by_rank rest)
      else line_scan rnk by_rank rest)"

definition strategy3 :: "string list \<Rightarrow> int \<Rightarrow> (int \<times> string) list \<Rightarrow> (int \<times> string) list" where
  "strategy3 lines top_n by_rank = fold (\<lambda>rnk by_rank. line_scan rnk by_rank lines) [1..top_n] by_rank"

subsection \<open>The cascade\<close>

text \<open>
  The cascade on the three views of the document that the strategies read: the node
  sequence, the block tags and the text. Beside the result it gives the strategies that
  ran, in order, as a call counter would record them.
\<close>

datatype strategy = MarkerAdjacency | OrdinalPrefix | LineWindow

definition extract_ranks ::
  "node list \<Rightarrow> node list \<Rightarrow> string \<Rightarrow> string \<Rightarrow> int \<Rightarrow> strategy list \<times> (error + string list)" where
  "extract_ranks nodes blocks text url top_n =
     (let results = strategy1 nodes top_n in
      if top_n \<le> int (length results)
      then ([MarkerAdjacency], lookup_all results [1..top_n])
      else
        (let by_rank = strategy2 blocks in
         if by_rank \<noteq> [] \<and> top_n \<le> int (length by_rank)
         then ([MarkerAdjacency, OrdinalPrefix],
               lookup_all by_rank (slice_to top_n (sort (map fst by_rank))))
         else
           (let lines = map strip (splitlines text);
                by_rank = strategy3 lines top_n by_rank
            in if top_n \<le> int (length (filter (\<lambda>k. 1 \<le> k \<and> k \<le> top_n) (map fst by_rank)))
               then ([MarkerAdjacency, OrdinalPrefix, LineWindow],
                     lookup_all by_rank [1..top_n])
               else ([MarkerAdjacency, OrdinalPrefix, LineWindow],
                     Inl (RuntimeError (''Could not extract top '' @ str_int top_n @
                            '' teams from the article at '' @ url))))))"

text \<open>\<open>parse_top_teams_from_article\<close> from the parsed article on (\<open>soup.find("article")
  or soup\<close>); the request for the page, which can raise, is before it.\<close>

definition parse_top_teams_traced ::
  "node \<Rightarrow> string \<Rightarrow> int \<Rightarrow> strategy list \<times> (error + string list)" where
  "parse_top_teams_traced article url top_n =
     extract_ranks (descendants article) (find_all BLOCK_TAGS article)
       (get_text [CHR 10] False article) url top_n"

definition parse_top_teams_from_article :: "node \<Rightarrow> string \<Rightarrow> int \<Rightarrow> error + string list" where
  "parse_top_teams_from_article article url top_n = snd (parse_top_teams_traced article url top_n)"

subsection \<open>Example documents\<close>

text \<open>
  Four small articles: markers "#1" and "#2" each followed by a team link; headings with
  the ordinals 2 to 5 and no marker; a marker for rank 1 only, followed by two ordinal
  paragraphs; and three paragraphs of which the first and the last start with an ordinal.
\<close>

definition doc_marked :: node where
  "doc_marked = Tag ''article'' []
     [Tag ''b'' [] [NavigableString ''#1''],
      Tag ''a'' [(''href'', ''/team/celtics'')] [NavigableString ''Boston Celtics''],
      Tag ''b'' [] [NavigableString ''#2''],
      Tag ''a'' [(''href'', ''/team/nuggets'')] [NavigableString ''Denver Nuggets'']]"

definition doc_from_two :: node where
  "doc_from_two = Tag ''article'' []
     [Tag ''h2'' [] [NavigableString ''2. Boston Celtics''],
      Tag ''h2'' [] [NavigableString ''3. Denver Nuggets''],
      Tag ''h2'' [] [NavigableString ''4. Miami Heat''],
      Tag ''h2'' [] [NavigableString ''5. Utah Jazz'']]"





section \<open>Properties of the string functions\<close>

subsection \<open>Character classes\<close>

lemma code_point_bounds: "0 \<le> code_point c \<and> code_point c < 256"
proof -
  have "code_point c mod 256 = code_point c"
    by (simp add: code_point_def)
  moreover have "0 \<le> code_point c mod 256 \<and> code_point c mod 256 < 256"
    by simp
  ultimately show ?thesis by simp
qed

lemma code_point_char_of: "0 \<le> n \<Longrightarrow> n < 256 \<Longrightarrow> code_point (char_of n) = n"
  by (simp add: code_point_def)


lemma isspace_lower_char: "isspace (lower_char c) = isspace c"
  using code_point_bounds [of c]
  by (auto simp: lower_char_def isspace_def Let_def code_point_char_of)

lemma isspace_not_isword: "isspace c \<Longrightarrow> \<not> isword c"
  by (auto simp: isspace_def isword_def Let_def)



subsection \<open>strip\<close>

lemma rstrip_Nil: "rstrip [] = []"
  by (simp add: rstrip_def)


lemma rstrip_Cons:
  "rstrip (c # cs) = (if rstrip cs = [] \<and> isspace c then [] else c # rstrip cs)"
  by (auto simp: rstrip_def dropWhile_append)

lemma lstrip_fixed: "s = [] \<or> \<not> isspace (hd s) \<Longrightarrow> lstrip s = s"
  by (auto simp: lstrip_def dropWhile_eq_self_iff)

lemma hd_rstrip: "rstrip s \<noteq> [] \<Longrightarrow> hd (rstrip s) = hd s"
  by (cases s) (auto simp: rstrip_Nil rstrip_Cons split: if_splits)

lemma rstrip_idem: "rstrip (rstrip s) = rstrip s"
  by (induction s) (auto simp: rstrip_Nil rstrip_Cons)

lemma lstrip_head: "lstrip s = [] \<or> \<not> isspace (hd (lstrip s))"
  using hd_dropWhile [of isspace s] by (auto simp: lstrip_def)

lemma strip_head: "strip s = [] \<or> \<not> isspace (hd (strip s))"
  using lstrip_head [of s] hd_rstrip [of "lstrip s"]
  by (auto simp: strip_def rstrip_Nil)

lemma strip_idem: "strip (strip s) = strip s"
proof -
  have "lstrip (strip s) = strip s"
    using strip_head [of s] by (intro lstrip_fixed) auto
  then show ?thesis
    by (simp add: strip_def rstrip_idem)
qed

lemma lower_lstrip: "lower (lstrip s) = lstrip (lower s)"
  by (simp add: lower_def lstrip_def dropWhile_map comp_def isspace_lower_char)

lemma lower_rstrip: "lower (rstrip s) = rstrip (lower s)"
  by (simp add: lower_def rstrip_def dropWhile_map comp_def isspace_lower_char rev_map)

lemma lower_strip: "lower (strip s) = strip (lower s)"
  by (simp add: strip_def lower_lstrip lower_rstrip)

lemma clean_strip: "clean (strip s) = clean s"
  by (simp add: clean_def lower_strip strip_idem)

subsection \<open>The replacement of the token "la"\<close>





lemma sub_la_from_True: "sub_la_from True (d # r) = d # sub_la_from (isword d) r"
  by simp



















subsection \<open>Normalized strings\<close>




















lemma isword_not_isspace: "isword c \<Longrightarrow> \<not> isspace c"
  using isspace_not_isword by blast























section \<open>Properties of canonicalization\<close>

lemma find_roster:
  assumes "key \<in> CANON_SET"
  shows "\<exists>t. find (\<lambda>t. clean t = key) CANON_TEAMS = Some t \<and> t \<in> set CANON_TEAMS \<and> clean t = key"
proof (cases "find (\<lambda>t. clean t = key) CANON_TEAMS")
  case None
  with assms show ?thesis
    by (auto simp: CANON_SET_def find_None_iff)
next
  case (Some t)
  then show ?thesis
    by (auto simp: find_Some_iff)
qed

lemma canonicalize_known:
  assumes "clean text \<in> CANON_SET"
  shows "canonicalize text \<in> set CANON_TEAMS \<and> clean (canonicalize text) = clean text
     \<and> find (\<lambda>t. clean t = clean text) CANON_TEAMS = Some (canonicalize text)"
  using find_roster [OF assms] assms by (auto simp: canonicalize_def)

lemma canonicalize_unknown: "clean text \<notin> CANON_SET \<Longrightarrow> canonicalize text = strip text"
  by (simp add: canonicalize_def)

text \<open>
  Claim C9: \<open>canonicalize\<close> is a fixed point on its own output, for every input string:
  canonicalizing the result of \<open>canonicalize\<close> gives that result again.
\<close>

theorem canonicalize_fixed_point: "canonicalize (canonicalize x) = canonicalize x"
proof (cases "clean x \<in> CANON_SET")
  case True
  from canonicalize_known [OF True]
  have k: "clean (canonicalize x) = clean x"
    and f: "find (\<lambda>t. clean t = clean x) CANON_TEAMS = Some (canonicalize x)"
    by simp_all
  from True k have "clean (canonicalize x) \<in> CANON_SET" by simp
  then show ?thesis
    using k f by (simp add: canonicalize_def [of "canonicalize x"])
next
  case False
  then have "canonicalize x = strip x"
    by (rule canonicalize_unknown)
  moreover from False have "canonicalize (strip x) = strip (strip x)"
    by (simp add: canonicalize_unknown clean_strip)
  ultimately show ?thesis
    by (simp add: strip_idem)
qed


lemma clean_examples:
  "clean ''LA Clippers'' = ''los angeles clippers''"
  "clean ''Los Angeles Clippers'' = ''los angeles clippers''"
  "clean ''la   clippers'' = ''los angeles clippers''"
  by code_simp+

lemma clean_roster: "map clean CANON_TEAMS = [
     ''atlanta hawks'', ''boston celtics'', ''brooklyn nets'', ''charlotte hornets'',
     ''chicago bulls'', ''cleveland cavaliers'', ''dallas mavericks'', ''denver nuggets'',
     ''detroit pistons'', ''golden state warriors'', ''houston rockets'', ''indiana pacers'',
     ''los angeles clippers'', ''los angeles lakers'', ''memphis grizzlies'', ''miami heat'',
     ''milwaukee bucks'', ''minnesota timberwolves'', ''new orleans pelicans'',
     ''new york knicks'', ''oklahoma city thunder'', ''orlando magic'', ''philadelphia 76ers'',
     ''phoenix suns'', ''portland trail blazers'', ''sacramento kings'', ''san antonio spurs'',
     ''toronto raptors'', ''utah jazz'', ''washington wizards'']"
  by code_simp

lemma distinct_roster: "distinct (map clean CANON_TEAMS)"
  unfolding clean_roster by simp

lemma CANON_SET_eq: "CANON_SET = set [
     ''atlanta hawks'', ''boston celtics'', ''brooklyn nets'', ''charlotte hornets'',
     ''chicago bulls'', ''cleveland cavaliers'', ''dallas mavericks'', ''denver nuggets'',
     ''detroit pistons'', ''golden state warriors'', ''houston rockets'', ''indiana pacers'',
     ''los angeles clippers'', ''los angeles lakers'', ''memphis grizzlies'', ''miami heat'',
     ''milwaukee bucks'', ''minnesota timberwolves'', ''new orleans pelicans'',
     ''new york knicks'', ''oklahoma city thunder'', ''orlando magic'', ''philadelphia 76ers'',
     ''phoenix suns'', ''portland trail blazers'', ''sacramento kings'', ''san antonio spurs'',
     ''toronto raptors'', ''utah jazz'', ''washington wizards'']"
  by (simp only: CANON_SET_def clean_roster)

lemma canonicalize_unique:
  assumes "t \<in> set CANON_TEAMS" and "clean t = clean text"
  shows "canonicalize text = t"
proof -
  from assms have k: "clean text \<in> CANON_SET"
    by (metis CANON_SET_def image_eqI set_map)
  from canonicalize_known [OF k]
  have "canonicalize text \<in> set CANON_TEAMS" "clean (canonicalize text) = clean t"
    using assms by simp_all
  moreover have "inj_on clean (set CANON_TEAMS)"
    using distinct_roster by (simp add: distinct_map)
  ultimately show ?thesis
    using assms(1) by (auto dest: inj_onD)
qed

text \<open>
  Claim C7: \<open>canonicalize\<close> never raises: it is a total function whose every path returns
  a string. When the normalized input is the normalized form of a roster entry, the result
  is that entry's display form (the one roster name with that normalized form); otherwise
  the result is the trimmed input, passed through unchanged and not signalled as an error.
\<close>

theorem canonicalize_total:
  "(is_team_name text \<longrightarrow>
      canonicalize text \<in> set CANON_TEAMS \<and> clean (canonicalize text) = clean text \<and>
      (\<forall>t\<in>set CANON_TEAMS. clean t = clean text \<longrightarrow> canonicalize text = t)) \<and>
   (\<not> is_team_name text \<longrightarrow> canonicalize text = strip text)"
  using canonicalize_known [of "text"] canonicalize_unknown [of "text"] canonicalize_unique
  by (auto simp: is_team_name_def)

lemma strip_example: "strip ''  Seattle SuperSonics '' = ''Seattle SuperSonics''"
  by code_simp

lemma clean_example_unknown: "clean ''  Seattle SuperSonics '' = ''seattle supersonics''"
  by code_simp

theorem canonicalize_total_witness:
  "is_team_name ''LA Clippers'' \<and> canonicalize ''LA Clippers'' = ''Los Angeles Clippers'' \<and>
   \<not> is_team_name ''  Seattle SuperSonics '' \<and>
   canonicalize ''  Seattle SuperSonics '' = ''Seattle SuperSonics''"
proof -
  have k: "is_team_name ''LA Clippers''"
    by (simp add: is_team_name_def clean_examples CANON_SET_eq)
  have u: "\<not> is_team_name ''  Seattle SuperSonics ''"
    by (simp add: is_team_name_def clean_example_unknown CANON_SET_eq)
  have m: "''Los Angeles Clippers'' \<in> set CANON_TEAMS"
    by (simp add: CANON_TEAMS_def)
  from canonicalize_total [of "''LA Clippers''"] k m
  have "canonicalize ''LA Clippers'' = ''Los Angeles Clippers''"
    by (simp add: clean_examples)
  moreover from canonicalize_total [of "''  Seattle SuperSonics ''"] u
  have "canonicalize ''  Seattle SuperSonics '' = ''Seattle SuperSonics''"
    by (simp add: strip_example)
  ultimately show ?thesis using k u by simp
qed


section \<open>Properties of the schedule aggregation\<close>

lemma set_update_subset: "set (AList.update k v al) \<subseteq> insert (k, v) (set al)"
  by (induction al) auto

lemma entries_of_Nil: "entries_of [] = {}"
  by (simp add: entries_of_def)

lemma entries_of_append_entry: "entries_of (append_entry k e bt) \<subseteq> insert e (entries_of bt)"
proof -
  define old where "old = (case map_of bt k of None \<Rightarrow> [] | Some es \<Rightarrow> es)"
  have o: "set old \<subseteq> entries_of bt"
  proof (cases "map_of bt k")
    case None
    then show ?thesis by (simp add: old_def)
  next
    case (Some es)
    then have "(k, es) \<in> set bt" by (rule map_of_SomeD)
    then have "set es \<subseteq> entries_of bt" by (auto simp: entries_of_def)
    with Some show ?thesis by (simp add: old_def)
  qed
  have "set (append_entry k e bt) \<subseteq> insert (k, old @ [e]) (set bt)"
    unfolding append_entry_def old_def by (rule set_update_subset)
  then have "entries_of (append_entry k e bt) \<subseteq> set (old @ [e]) \<union> entries_of bt"
    unfolding entries_of_def by fastforce
  with o show ?thesis by auto
qed

lemma entries_of_sort_by_date: "entries_of (sort_by_date bt) = entries_of bt"
  by (auto simp: entries_of_def sort_by_date_def)

lemma entries_of_add_game:
  "entries_of (add_game today end want g bt) \<subseteq>
     entries_of bt \<union> {e. today \<le> fst e \<and> fst e \<le> end}"
proof (cases "today \<le> date g \<and> date g \<le> end")
  case False
  then show ?thesis by (auto simp: add_game_def)
next
  case True
  have a: "entries_of (append_entry k (date g, x, v) b) \<subseteq> entries_of b \<union> {e. today \<le> fst e \<and> fst e \<le> end}"
    for k x v b
    using entries_of_append_entry [of k "(date g, x, v)" b] True by auto
  show ?thesis
    using a [of "home g" "away g" HOME bt]
      a [of "away g" "home g" AWAY bt]
      a [of "away g" "home g" AWAY "append_entry (home g) (date g, away g, HOME) bt"]
    by (auto simp: add_game_def Let_def)
qed

lemma entries_of_fold_add_game:
  "entries_of (fold (add_game today end want) gs bt) \<subseteq>
     entries_of bt \<union> {e. today \<le> fst e \<and> fst e \<le> end}"
proof (induction gs arbitrary: bt)
  case Nil
  then show ?case by simp
next
  case (Cons g gs)
  from Cons [of "add_game today end want g bt"] entries_of_add_game [of today "end" want g bt]
  show ?case by auto
qed

lemma upcoming_v9_window:
  "\<forall>(d, opp, ven)\<in>entries_of (upcoming_opponents_next_week_v9 today todays_games future_games teams days).
     today \<le> d \<and> d \<le> today + days - 1"
proof -
  let ?e = "today + (days - 1)" and ?w = "set (map clean teams)"
  let ?b1 = "fold (add_game today ?e ?w) todays_games []"
  have "entries_of ?b1 \<subseteq> {e. today \<le> fst e \<and> fst e \<le> ?e}"
    using entries_of_fold_add_game [of today ?e ?w todays_games "[]"]
    by (simp add: entries_of_Nil)
  with entries_of_fold_add_game [of today ?e ?w future_games ?b1]
  have "entries_of (fold (add_game today ?e ?w) future_games ?b1) \<subseteq> {e. today \<le> fst e \<and> fst e \<le> ?e}"
    by blast
  then show ?thesis
    by (auto simp: upcoming_opponents_next_week_v9_def Let_def entries_of_sort_by_date)
qed

lemma fold_filter_agree:
  assumes skip: "\<And>g m. \<not> P g \<Longrightarrow> F g m d = m d"
    and cong: "\<And>g m m'. m d = m' d \<Longrightarrow> F g m d = F g m' d"
    and start: "m d = m' d"
  shows "fold F (filter P xs) m d = fold F xs m' d"
  using start
proof (induction xs arbitrary: m m')
  case Nil
  then show ?case by simp
next
  case (Cons g xs)
  show ?case
  proof (cases "P g")
    case True
    from Cons.prems have "F g m d = F g m' d" by (rule cong)
    then have "fold F (filter P xs) (F g m) d = fold F xs (F g m') d" by (rule Cons.IH)
    with True show ?thesis by simp
  next
    case False
    then have "F g m' d = m' d" by (rule skip)
    with Cons.prems have "m d = F g m' d" by simp
    then have "fold F (filter P xs) m d = fold F xs (F g m') d" by (rule Cons.IH)
    with False show ?thesis by simp
  qed
qed

lemma index_schedule_filter:
  "d \<noteq> today \<Longrightarrow>
   index_schedule lo hi (filter (\<lambda>g. date g \<noteq> today) sched) d = index_schedule lo hi sched d"
  unfolding index_schedule_def by (rule fold_filter_agree) auto

lemma future_days_cong:
  "(\<And>d. cur \<le> d \<Longrightarrow> m d = m' d) \<Longrightarrow>
   future_days want m end cur bt = future_days want m' end cur bt"
proof (induction want m "end" cur bt rule: future_days.induct)
  case (1 want m "end" cur bt)
  show ?case
  proof (cases "cur \<le> end")
    case True
    have "future_days want m end (cur + 1) (fold (add_scheduled want cur) (m cur) bt)
        = future_days want m' end (cur + 1) (fold (add_scheduled want cur) (m cur) bt)"
      using True "1.prems" by (intro "1.IH") simp_all
    moreover have "m cur = m' cur" using "1.prems" by simp
    ultimately show ?thesis
      using True by (subst (1 2) future_days.simps) simp
  next
    case False
    then show ?thesis by (subst (1 2) future_days.simps) simp
  qed
qed

lemma upcoming_v8_today_discarded:
  "upcoming_opponents_next_week_v8 today todays_games league_schedule teams days =
   upcoming_opponents_next_week_v8 today todays_games
     (filter (\<lambda>g. date g \<noteq> today) league_schedule) teams days"
proof -
  have "future_days want (index_schedule today e league_schedule) e (today + 1) bt =
        future_days want (index_schedule today e (filter (\<lambda>g. date g \<noteq> today) league_schedule))
          e (today + 1) bt" for want e bt
    by (rule future_days_cong) (simp add: index_schedule_filter)
  then show ?thesis
    by (simp add: upcoming_opponents_next_week_v8_def Let_def)
qed

lemma fetch_espn_dates: "g \<in> set (fetch_espn_games_for_date r d) \<Longrightarrow> date g = d"
  by (auto simp: fetch_espn_games_for_date_def split: if_splits option.splits prod.splits)

lemma load_future_dates:
  "g \<in> set (load_future_games_from_espn espn today days_ahead) \<Longrightarrow>
   today + 1 \<le> date g \<and> date g \<le> today + days_ahead"
  by (auto simp: load_future_games_from_espn_def split: option.splits dest!: fetch_espn_dates)

lemma clean_teams:
  "clean ''Boston Celtics'' = ''boston celtics''"
  "clean ''Denver Nuggets'' = ''denver nuggets''"
  "clean ''Los Angeles Clippers'' = ''los angeles clippers''"
  "clean ''Miami Heat'' = ''miami heat''"
  using clean_roster by (simp_all add: CANON_TEAMS_def)

lemma canonicalize_roster: "t \<in> set CANON_TEAMS \<Longrightarrow> canonicalize t = t"
  by (rule canonicalize_unique) simp_all

text \<open>
  Claim C3, as stated, fails on the merge of main9.py: it applies the window test alone to
  both batches, so a record dated today in the future batch is kept beside the live one.
\<close>

theorem upcoming_v9_keeps_other_source_today:
  "upcoming_opponents_next_week_v9 100
     [\<lparr>date = 100, home = ''Los Angeles Clippers'', away = ''Denver Nuggets''\<rparr>]
     [\<lparr>date = 100, home = ''Los Angeles Clippers'', away = ''Denver Nuggets''\<rparr>]
     [''Los Angeles Clippers''] 7
   = [(''Los Angeles Clippers'', [(100, ''Denver Nuggets'', HOME), (100, ''Denver Nuggets'', HOME)])]
   \<and> upcoming_opponents_next_week_v9 100
     [\<lparr>date = 100, home = ''Los Angeles Clippers'', away = ''Denver Nuggets''\<rparr>]
     []
     [''Los Angeles Clippers''] 7
   = [(''Los Angeles Clippers'', [(100, ''Denver Nuggets'', HOME)])]"
  by (simp add: upcoming_opponents_next_week_v9_def add_game_def append_entry_def
      sort_by_date_def clean_teams Let_def)

text \<open>
  Claim C3, amended: in the merge of main8.py the season-schedule records dated today never
  reach the output, which is the same with those records removed. The merge of main9.py has
  no rule of its own for today; there the loader of the day-granular feed asks only for the
  dates today+1 .. today+days_ahead and stamps each record with the date asked for, so the
  future batch it builds holds no record dated today.
\<close>

theorem today_entries_live_only:
  "upcoming_opponents_next_week_v8 today todays_games league_schedule teams days =
     upcoming_opponents_next_week_v8 today todays_games
       (filter (\<lambda>g. date g \<noteq> today) league_schedule) teams days
   \<and> (\<forall>g\<in>set (load_future_games_from_espn espn today days_ahead).
         today < date g \<and> date g \<le> today + days_ahead)"
proof (intro conjI ballI)
  show "upcoming_opponents_next_week_v8 today todays_games league_schedule teams days =
     upcoming_opponents_next_week_v8 today todays_games
       (filter (\<lambda>g. date g \<noteq> today) league_schedule) teams days"
    by (rule upcoming_v8_today_discarded)
next
  fix g assume "g \<in> set (load_future_games_from_espn espn today days_ahead)"
  then have "today + 1 \<le> date g \<and> date g \<le> today + days_ahead"
    by (rule load_future_dates)
  then show "today < date g" "date g \<le> today + days_ahead" by simp_all
qed

lemma load_future_example:
  "load_future_games_from_espn
     (\<lambda>d. if d = 101 then Some (200,
        [[\<lparr>homeAway = ''home'', displayName = ''Boston Celtics'', location = [], name = []\<rparr>,
          \<lparr>homeAway = ''away'', displayName = ''Denver Nuggets'', location = [], name = []\<rparr>]])
        else None) 100 1
   = [\<lparr>date = 101, home = ''Boston Celtics'', away = ''Denver Nuggets''\<rparr>]"
proof -
  have "canonicalize ''Boston Celtics'' = ''Boston Celtics''"
    "canonicalize ''Denver Nuggets'' = ''Denver Nuggets''"
    by (rule canonicalize_roster, simp add: CANON_TEAMS_def)+
  then show ?thesis
    by (simp add: load_future_games_from_espn_def fetch_espn_games_for_date_def
        event_names_def competitor_name_def)
qed

theorem today_entries_live_only_witness:
  "\<lparr>date = 101, home = ''Boston Celtics'', away = ''Denver Nuggets''\<rparr> \<in> set (load_future_games_from_espn
     (\<lambda>d. if d = 101 then Some (200,
        [[\<lparr>homeAway = ''home'', displayName = ''Boston Celtics'', location = [], name = []\<rparr>,
          \<lparr>homeAway = ''away'', displayName = ''Denver Nuggets'', location = [], name = []\<rparr>]])
        else None) 100 1)
   \<and> (100::int) < date \<lparr>date = 101, home = ''Boston Celtics'', away = ''Denver Nuggets''\<rparr>
   \<and> date \<lparr>date = 101, home = ''Boston Celtics'', away = ''Denver Nuggets''\<rparr> \<le> 100 + 1"
  using today_entries_live_only [of 100 "[]" "[]" "[]" 7
     "(\<lambda>d. if d = 101 then Some (200,
        [[\<lparr>homeAway = ''home'', displayName = ''Boston Celtics'', location = [], name = []\<rparr>,
          \<lparr>homeAway = ''away'', displayName = ''Denver Nuggets'', location = [], name = []\<rparr>]])
        else None)" 1]
  by (simp add: load_future_example)

lemma strip_ids:
  "strip ''1610612738'' = ''1610612738''" "strip ''1610612743'' = ''1610612743''"
  by code_simp+

text \<open>
  Claim C4 says that every opponent entry has a date within today .. today + days - 1. The
  merge of main9.py keeps to it (\<open>upcoming_v9_window\<close> above). The scan of main1.py
  does not: \<open>date_range_days\<close> yields days + 1 dates, so with days = 7 a game on
  today + 7 is reported.
\<close>

theorem upcoming_v1_eighth_day:
  "upcoming_opponents_next_week_v1
     (\<lambda>d. if d = 107
           then Inr [\<lparr>h_teamId = ''1610612738'', h_triCode = ''BOS'',
                      v_teamId = ''1610612743'', v_triCode = ''DEN''\<rparr>]
           else Inr [])
     100 [''1610612738'']
     [(''boston celtics'', \<lparr>teamId = ''1610612738'', tricode = ''BOS'',
          fullName = ''Boston Celtics'', nickname = ''Celtics''\<rparr>),
      (''denver nuggets'', \<lparr>teamId = ''1610612743'', tricode = ''DEN'',
          fullName = ''Denver Nuggets'', nickname = ''Nuggets''\<rparr>)]
     7
   = Inr [(''1610612738'', [(107, ''Denver Nuggets'', HOME)])]
   \<and> \<not> ((107::int) \<le> 100 + 7 - 1)
   \<and> date_range_days 100 7 = [100, 101, 102, 103, 104, 105, 106, 107]"
  by (simp add: upcoming_opponents_next_week_v1_def date_range_days_def add_scoreboard_game_def
      full_by_tid_def append_entry_def sort_by_date_def strip_ids upto_rec1)

section \<open>Properties of the article selection\<close>

lemma comparable_iff_less_defined:
  "comparable ts \<longleftrightarrow> (\<forall>a\<in>set ts. \<forall>b\<in>set ts. datetime_less a b \<noteq> Inl TypeError)"
  by (auto simp: comparable_def datetime_less_def)

lemma datetime_min_least: "datetime_less (Naive n) datetime_min = Inr False"
  by (simp add: datetime_less_def datetime_min_def)

lemma sorted_le_last: "sorted ys \<Longrightarrow> y \<in> set ys \<Longrightarrow> y \<le> last ys"
proof (induction ys rule: rev_induct)
  case Nil
  then show ?case by simp
next
  case (snoc z zs)
  then show ?case by (auto simp: sorted_append)
qed

lemma sorted_desc_head:
  assumes "xs \<noteq> []"
  shows "\<exists>best rest. rev (sort_key k (rev xs)) = best # rest \<and> best \<in> set xs \<and>
           (\<forall>x\<in>set xs. k x \<le> k best)"
proof -
  let ?s = "sort_key k (rev xs)"
  have "set ?s = set xs" by simp
  with assms have ne: "?s \<noteq> []" by (metis set_empty)
  have srt: "sorted (map k ?s)" by (rule sorted_sort_key)
  have "?s = butlast ?s @ [last ?s]"
    using ne by simp
  then have "rev ?s = rev (butlast ?s @ [last ?s])" by simp
  then have r: "rev ?s = last ?s # rev (butlast ?s)" by simp
  have m: "last ?s \<in> set xs"
    using ne last_in_set [of ?s] by simp
  have "k x \<le> k (last ?s)" if "x \<in> set xs" for x
  proof -
    from that have "k x \<in> set (map k ?s)" by simp
    with srt have "k x \<le> last (map k ?s)" by (rule sorted_le_last)
    with ne show ?thesis by (simp add: last_map)
  qed
  with r m show ?thesis by blast
qed

lemma selection_none_plausible:
  assumes "dedupe [] candidates = first # others"
    and "concat (map (score_candidate get strptime fromisoformat) (take 12 (first # others))) = []"
  shows "get_latest_power_rankings_article get strptime fromisoformat candidates = Inr first"
  using assms by (simp add: get_latest_power_rankings_article_def)

lemma selection_mixed:
  assumes "dedupe [] candidates = first # others"
    and "scored = concat (map (score_candidate get strptime fromisoformat) (take 12 (first # others)))"
    and "\<not> comparable (map fst scored)"
  shows "get_latest_power_rankings_article get strptime fromisoformat candidates = Inl TypeError"
proof -
  from assms(3) have "scored \<noteq> []" by (auto simp: comparable_def)
  moreover from assms(3) have "sorted_by_time_desc scored = Inl TypeError"
    by (simp add: sorted_by_time_desc_def)
  ultimately show ?thesis
    unfolding get_latest_power_rankings_article_def assms(1) list.case Let_def assms(2) [symmetric]
    by simp
qed

lemma selection_latest:
  assumes "dedupe [] candidates = first # others"
    and "scored = concat (map (score_candidate get strptime fromisoformat) (take 12 (first # others)))"
    and "scored \<noteq> []" and "comparable (map fst scored)"
  shows "\<exists>ts u. get_latest_power_rankings_article get strptime fromisoformat candidates = Inr u \<and>
           (ts, u) \<in> set scored \<and> (\<forall>(ts', u')\<in>set scored. ts_key ts' \<le> ts_key ts)"
proof -
  from sorted_desc_head [OF assms(3), of "\<lambda>x. ts_key (fst x)"]
  obtain best rest where b: "rev (sort_key (\<lambda>x. ts_key (fst x)) (rev scored)) = best # rest"
    "best \<in> set scored" "\<forall>x\<in>set scored. ts_key (fst x) \<le> ts_key (fst best)"
    by blast
  have "sorted_by_time_desc scored = Inr (best # rest)"
    using assms(4) b(1) by (simp add: sorted_by_time_desc_def)
  then have "get_latest_power_rankings_article get strptime fromisoformat candidates = Inr (snd best)"
    unfolding get_latest_power_rankings_article_def assms(1) list.case Let_def assms(2) [symmetric]
    using assms(3) by simp
  with b(2,3) show ?thesis
    by (intro exI [of _ "fst best"] exI [of _ "snd best"]) auto
qed

text \<open>
  Claim C10 says that ordering the scored candidates never raises, also when one plausible
  candidate has an aware publish time and another has none and gets \<open>datetime.min\<close>. It
  does raise: two plausible candidates, the first with the meta content
  "2024-01-01T00:00:00+0000" (parsed by the format with \<open>%z\<close>, aware), the second
  without any publish time (naive \<open>datetime.min\<close>), make the sort compare an aware with a
  naive value, and the \<open>TypeError\<close> leaves the function.
\<close>

theorem selection_raises_on_missing_timestamp:
  "get_latest_power_rankings_article
     (\<lambda>u. if u = ''https://www.nba.com/news/power-rankings-week-2''
           then Response 200 \<lparr>looks_like_power_rankings_article = True,
                  meta_content = Some ''2024-01-01T00:00:00+0000'', time_datetime = None\<rparr>
           else Response 200 \<lparr>looks_like_power_rankings_article = True,
                  meta_content = None, time_datetime = None\<rparr>)
     (\<lambda>content fmt. if content = ''2024-01-01T00:00:00+0000'' \<and> fmt = ''%Y-%m-%dT%H:%M:%S%z''
           then Some (Aware 63839664000000000) else None)
     (\<lambda>t. None)
     [''https://www.nba.com/news/power-rankings-week-2'',
      ''https://www.nba.com/news/power-rankings-week-1'']
   = Inl TypeError"
  by (simp add: get_latest_power_rankings_article_def score_candidate_def
      extract_publish_time_def PUBLISH_FORMATS_def datetime_min_def sorted_by_time_desc_def
      comparable_def)

text \<open>
  Claim C6 says that the selection returns the plausible candidate with the latest publish
  time. Where the publish times are comparable it does (\<open>selection_latest\<close>, and
  \<open>selection_none_plausible\<close> for the fallback). Here the newer candidate has a
  \<open>time\<close> tag with "2024-01-08T12:00:00Z" (aware once the Z is replaced) and the older
  one the meta content "2024-01-01" (naive): the selection returns neither and raises.
\<close>

theorem selection_raises_on_mixed_timestamps:
  "get_latest_power_rankings_article
     (\<lambda>u. if u = ''https://www.nba.com/news/power-rankings-week-2''
           then Response 200 \<lparr>looks_like_power_rankings_article = True,
                  meta_content = None, time_datetime = Some ''2024-01-08T12:00:00Z''\<rparr>
           else Response 200 \<lparr>looks_like_power_rankings_article = True,
                  meta_content = Some ''2024-01-01'', time_datetime = None\<rparr>)
     (\<lambda>content fmt. if content = ''2024-01-01'' \<and> fmt = ''%Y-%m-%d''
           then Some (Naive 63839664000000000) else None)
     (\<lambda>t. if t = ''2024-01-08T12:00:00+00:00'' then Some (Aware 63840312000000000) else None)
     [''https://www.nba.com/news/power-rankings-week-2'',
      ''https://www.nba.com/news/power-rankings-week-1'']
   = Inl TypeError"
  by (simp add: get_latest_power_rankings_article_def score_candidate_def
      extract_publish_time_def PUBLISH_FORMATS_def datetime_min_def sorted_by_time_desc_def
      comparable_def replace_Z_def)

section \<open>Properties of the rank extraction\<close>

subsection \<open>Dicts\<close>

lemma lookup_all_Inr:
  "\<forall>r\<in>set rs. map_of d r \<noteq> None \<Longrightarrow>
   \<exists>vs. lookup_all d rs = Inr vs \<and> map (map_of d) rs = map Some vs"
  by (induction rs) auto

lemma lookup_all_Inl:
  "lookup_all d rs = Inl e \<Longrightarrow> e = KeyError \<and> (\<exists>r\<in>set rs. map_of d r = None)"
  by (induction rs arbitrary: e) (auto split: option.splits sum.splits)

lemma keys_complete:
  assumes "distinct ks" and "set ks \<subseteq> {1..n}"
  shows "n \<le> int (length ks) \<longleftrightarrow> {1..n} \<subseteq> set ks"
proof
  assume a: "n \<le> int (length ks)"
  have "card (set ks) = length ks" using assms(1) by (rule distinct_card)
  with a have "card {1..n} \<le> card (set ks)" by simp
  with assms(2) have "set ks = {1..n}"
    by (intro card_seteq) auto
  then show "{1..n} \<subseteq> set ks" by simp
next
  assume "{1..n} \<subseteq> set ks"
  then have "card {1..n} \<le> card (set ks)" by (intro card_mono) auto
  also have "card (set ks) = length ks" using assms(1) by (rule distinct_card)
  finally show "n \<le> int (length ks)" by simp
qed

lemma map_of_None_iff_keys: "map_of d r \<noteq> None \<longleftrightarrow> r \<in> set (map fst d)"
  by (simp add: map_of_eq_None_iff)

subsection \<open>Strategy 1\<close>

lemma fold_update_map_of:
  "map_of (fold (\<lambda>rank results. case g rank of
                   Some found \<Rightarrow> AList.update rank found results | None \<Rightarrow> results) rs acc) r
   = (if r \<in> set rs then (case g r of Some v \<Rightarrow> Some v | None \<Rightarrow> map_of acc r)
      else map_of acc r)"
  by (induction rs arbitrary: acc) (auto simp: update_conv' split: option.splits)

lemma fold_update_distinct:
  "distinct (map fst acc) \<Longrightarrow>
   distinct (map fst (fold (\<lambda>rank results. case g rank of
                   Some found \<Rightarrow> AList.update rank found results | None \<Rightarrow> results) rs acc))"
  by (induction rs arbitrary: acc) (auto simp: distinct_update split: option.splits)

lemma strategy1_map_of:
  "map_of (strategy1 nodes top_n) r =
     (if 1 \<le> r \<and> r \<le> top_n then marker_scan r nodes else None)"
  unfolding strategy1_def fold_update_map_of by (auto split: option.splits)

lemma strategy1_distinct: "distinct (map fst (strategy1 nodes top_n))"
  unfolding strategy1_def by (rule fold_update_distinct) simp

lemma strategy1_keys: "set (map fst (strategy1 nodes top_n)) \<subseteq> {1..top_n}"
proof
  fix r assume "r \<in> set (map fst (strategy1 nodes top_n))"
  then have "map_of (strategy1 nodes top_n) r \<noteq> None"
    by (simp only: map_of_None_iff_keys)
  then show "r \<in> {1..top_n}"
    by (auto simp: strategy1_map_of split: if_splits)
qed

lemma strategy1_complete:
  "top_n \<le> int (length (strategy1 nodes top_n)) \<longleftrightarrow>
     (\<forall>r\<in>{1..top_n}. marker_scan r nodes \<noteq> None)"
proof -
  have "top_n \<le> int (length (map fst (strategy1 nodes top_n))) \<longleftrightarrow>
      {1..top_n} \<subseteq> set (map fst (strategy1 nodes top_n))"
    using strategy1_distinct strategy1_keys by (rule keys_complete)
  also have "\<dots> \<longleftrightarrow> (\<forall>r\<in>{1..top_n}. map_of (strategy1 nodes top_n) r \<noteq> None)"
    by (auto simp only: map_of_None_iff_keys)
  also have "\<dots> \<longleftrightarrow> (\<forall>r\<in>{1..top_n}. marker_scan r nodes \<noteq> None)"
    by (auto simp: strategy1_map_of)
  finally show ?thesis by simp
qed

lemma extract_strategy1:
  assumes "\<forall>r\<in>{1..top_n}. marker_scan r nodes \<noteq> None"
  shows "\<exists>names. extract_ranks nodes blocks text url top_n = ([MarkerAdjacency], Inr names) \<and>
           map (\<lambda>r. marker_scan r nodes) [1..top_n] = map Some names"
proof -
  from assms have c: "top_n \<le> int (length (strategy1 nodes top_n))"
    by (simp only: strategy1_complete)
  have "\<forall>r\<in>set [1..top_n]. map_of (strategy1 nodes top_n) r \<noteq> None"
    using assms by (auto simp: strategy1_map_of)
  from lookup_all_Inr [OF this] obtain names where
    n: "lookup_all (strategy1 nodes top_n) [1..top_n] = Inr names"
       "map (map_of (strategy1 nodes top_n)) [1..top_n] = map Some names"
    by blast
  have "map (map_of (strategy1 nodes top_n)) [1..top_n] = map (\<lambda>r. marker_scan r nodes) [1..top_n]"
    by (rule map_cong) (auto simp: strategy1_map_of)
  with n c show ?thesis
    by (simp add: extract_ranks_def Let_def)
qed

text \<open>
  Claim C5: when the marker-adjacency scan alone resolves every rank 1..N, the cascade
  returns exactly the mapping of Strategy 1 and the strategies that ran are Strategy 1
  alone: Strategies 2 and 3 are not executed, and the result does not depend on the block
  tags or on the text that they would read.
\<close>

theorem strategy1_short_circuit:
  assumes "\<forall>r\<in>{1..top_n}. marker_scan r (descendants article) \<noteq> None"
  shows "\<exists>names.
           parse_top_teams_traced article url top_n = ([MarkerAdjacency], Inr names) \<and>
           parse_top_teams_from_article article url top_n = Inr names \<and>
           map (\<lambda>r. marker_scan r (descendants article)) [1..top_n] = map Some names \<and>
           (\<forall>blocks body.
              extract_ranks (descendants article) blocks body url top_n =
                ([MarkerAdjacency], Inr names))"
proof -
  from extract_strategy1 [OF assms, of "find_all BLOCK_TAGS article" "get_text [CHR 10] False article" url]
  obtain names where
    n: "parse_top_teams_traced article url top_n = ([MarkerAdjacency], Inr names)"
       "map (\<lambda>r. marker_scan r (descendants article)) [1..top_n] = map Some names"
    by (auto simp: parse_top_teams_traced_def)
  have "extract_ranks (descendants article) blocks body url top_n = ([MarkerAdjacency], Inr names)"
    for blocks body
  proof -
    from extract_strategy1 [OF assms, of blocks body url]
    obtain names' where
      n': "extract_ranks (descendants article) blocks body url top_n = ([MarkerAdjacency], Inr names')"
          "map (\<lambda>r. marker_scan r (descendants article)) [1..top_n] = map Some names'"
      by blast
    from n(2) n'(2) have "map Some names' = map Some names" by simp
    then have "names' = names" by (rule map_injective) simp
    with n'(1) show ?thesis by simp
  qed
  with n show ?thesis
    by (auto simp: parse_top_teams_from_article_def)
qed

subsection \<open>Evaluation with the roster as a table\<close>

lemma CANON_SET_code [code]: "CANON_SET = set [
     ''atlanta hawks'', ''boston celtics'', ''brooklyn nets'', ''charlotte hornets'',
     ''chicago bulls'', ''cleveland cavaliers'', ''dallas mavericks'', ''denver nuggets'',
     ''detroit pistons'', ''golden state warriors'', ''houston rockets'', ''indiana pacers'',
     ''los angeles clippers'', ''los angeles lakers'', ''memphis grizzlies'', ''miami heat'',
     ''milwaukee bucks'', ''minnesota timberwolves'', ''new orleans pelicans'',
     ''new york knicks'', ''oklahoma city thunder'', ''orlando magic'', ''philadelphia 76ers'',
     ''phoenix suns'', ''portland trail blazers'', ''sacramento kings'', ''san antonio spurs'',
     ''toronto raptors'', ''utah jazz'', ''washington wizards'']"
  by (rule CANON_SET_eq)

lemma canonicalize_lookup:
  "canonicalize text =
     (case map_of (map (\<lambda>t. (clean t, t)) CANON_TEAMS) (clean text) of
        Some t \<Rightarrow> t | None \<Rightarrow> strip text)"
proof (cases "clean text \<in> CANON_SET")
  case True
  from canonicalize_known [OF True]
  have c: "canonicalize text \<in> set CANON_TEAMS" "clean (canonicalize text) = clean text"
    by simp_all
  then have "(clean text, canonicalize text) \<in> set (map (\<lambda>t. (clean t, t)) CANON_TEAMS)"
    by (auto simp: image_iff intro!: bexI [of _ "canonicalize text"])
  moreover have "distinct (map fst (map (\<lambda>t. (clean t, t)) CANON_TEAMS))"
    using distinct_roster by (simp add: comp_def)
  ultimately have "map_of (map (\<lambda>t. (clean t, t)) CANON_TEAMS) (clean text) = Some (canonicalize text)"
    by (rule map_of_is_SomeI [rotated])
  then show ?thesis by simp
next
  case False
  then have "map_of (map (\<lambda>t. (clean t, t)) CANON_TEAMS) (clean text) = None"
    by (auto simp: map_of_eq_None_iff CANON_SET_def image_iff)
  with False show ?thesis
    by (simp add: canonicalize_unknown)
qed

lemma roster_table: "map (\<lambda>t. (clean t, t)) CANON_TEAMS = [
     (''atlanta hawks'', ''Atlanta Hawks''),
     (''boston celtics'', ''Boston Celtics''),
     (''brooklyn nets'', ''Brooklyn Nets''),
     (''charlotte hornets'', ''Charlotte Hornets''),
     (''chicago bulls'', ''Chicago Bulls''),
     (''cleveland cavaliers'', ''Cleveland Cavaliers''),
     (''dallas mavericks'', ''Dallas Mavericks''),
     (''denver nuggets'', ''Denver Nuggets''),
     (''detroit pistons'', ''Detroit Pistons''),
     (''golden state warriors'', ''Golden State Warriors''),
     (''houston rockets'', ''Houston Rockets''),
     (''indiana pacers'', ''Indiana Pacers''),
     (''los angeles clippers'', ''Los Angeles Clippers''),
     (''los angeles lakers'', ''Los Angeles Lakers''),
     (''memphis grizzlies'', ''Memphis Grizzlies''),
     (''miami heat'', ''Miami Heat''),
     (''milwaukee bucks'', ''Milwaukee Bucks''),
     (''minnesota timberwolves'', ''Minnesota Timberwolves''),
     (''new orleans pelicans'', ''New Orleans Pelicans''),
     (''new york knicks'', ''New York Knicks''),
     (''oklahoma city thunder'', ''Oklahoma City Thunder''),
     (''orlando magic'', ''Orlando Magic''),
     (''philadelphia 76ers'', ''Philadelphia 76ers''),
     (''phoenix suns'', ''Phoenix Suns''),
     (''portland trail blazers'', ''Portland Trail Blazers''),
     (''sacramento kings'', ''Sacramento Kings''),
     (''san antonio spurs'', ''San Antonio Spurs''),
     (''toronto raptors'', ''Toronto Raptors''),
     (''utah jazz'', ''Utah Jazz''),
     (''washington wizards'', ''Washington Wizards'')]"
proof -
  have "map (\<lambda>t. (clean t, t)) CANON_TEAMS = zip (map clean CANON_TEAMS) CANON_TEAMS"
    by (simp add: zip_map1 zip_same_conv_map)
  also have "\<dots> = [
     (''atlanta hawks'', ''Atlanta Hawks''),
     (''boston celtics'', ''Boston Celtics''),
     (''brooklyn nets'', ''Brooklyn Nets''),
     (''charlotte hornets'', ''Charlotte Hornets''),
     (''chicago bulls'', ''Chicago Bulls''),
     (''cleveland cavaliers'', ''Cleveland Cavaliers''),
     (''dallas mavericks'', ''Dallas Mavericks''),
     (''denver nuggets'', ''Denver Nuggets''),
     (''detroit pistons'', ''Detroit Pistons''),
     (''golden state warriors'', ''Golden State Warriors''),
     (''houston rockets'', ''Houston Rockets''),
     (''indiana pacers'', ''Indiana Pacers''),
     (''los angeles clippers'', ''Los Angeles Clippers''),
     (''los angeles lakers'', ''Los Angeles Lakers''),
     (''memphis grizzlies'', ''Memphis Grizzlies''),
     (''miami heat'', ''Miami Heat''),
     (''milwaukee bucks'', ''Milwaukee Bucks''),
     (''minnesota timberwolves'', ''Minnesota Timberwolves''),
     (''new orleans pelicans'', ''New Orleans Pelicans''),
     (''new york knicks'', ''New York Knicks''),
     (''oklahoma city thunder'', ''Oklahoma City Thunder''),
     (''orlando magic'', ''Orlando Magic''),
     (''philadelphia 76ers'', ''Philadelphia 76ers''),
     (''phoenix suns'', ''Phoenix Suns''),
     (''portland trail blazers'', ''Portland Trail Blazers''),
     (''sacramento kings'', ''Sacramento Kings''),
     (''san antonio spurs'', ''San Antonio Spurs''),
     (''toronto raptors'', ''Toronto Raptors''),
     (''utah jazz'', ''Utah Jazz''),
     (''washington wizards'', ''Washington Wizards'')]"
    unfolding clean_roster by (simp add: CANON_TEAMS_def)
  finally show ?thesis .
qed

lemma canonicalize_code [code]:
  "canonicalize text =
     (case map_of [
     (''atlanta hawks'', ''Atlanta Hawks''),
     (''boston celtics'', ''Boston Celtics''),
     (''brooklyn nets'', ''Brooklyn Nets''),
     (''charlotte hornets'', ''Charlotte Hornets''),
     (''chicago bulls'', ''Chicago Bulls''),
     (''cleveland cavaliers'', ''Cleveland Cavaliers''),
     (''dallas mavericks'', ''Dallas Mavericks''),
     (''denver nuggets'', ''Denver Nuggets''),
     (''detroit pistons'', ''Detroit Pistons''),
     (''golden state warriors'', ''Golden State Warriors''),
     (''houston rockets'', ''Houston Rockets''),
     (''indiana pacers'', ''Indiana Pacers''),
     (''los angeles clippers'', ''Los Angeles Clippers''),
     (''los angeles lakers'', ''Los Angeles Lakers''),
     (''memphis grizzlies'', ''Memphis Grizzlies''),
     (''miami heat'', ''Miami Heat''),
     (''milwaukee bucks'', ''Milwaukee Bucks''),
     (''minnesota timberwolves'', ''Minnesota Timberwolves''),
     (''new orleans pelicans'', ''New Orleans Pelicans''),
     (''new york knicks'', ''New York Knicks''),
     (''oklahoma city thunder'', ''Oklahoma City Thunder''),
     (''orlando magic'', ''Orlando Magic''),
     (''philadelphia 76ers'', ''Philadelphia 76ers''),
     (''phoenix suns'', ''Phoenix Suns''),
     (''portland trail blazers'', ''Portland Trail Blazers''),
     (''sacramento kings'', ''Sacramento Kings''),
     (''san antonio spurs'', ''San Antonio Spurs''),
     (''toronto raptors'', ''Toronto Raptors''),
     (''utah jazz'', ''Utah Jazz''),
     (''washington wizards'', ''Washington Wizards'')] (clean text) of
        Some t \<Rightarrow> t | None \<Rightarrow> strip text)"
  unfolding canonicalize_lookup roster_table ..

subsection \<open>Strategy 3\<close>















subsection \<open>The shape of the result\<close>

lemma strategy2_distinct: "distinct (map fst (strategy2 blocks))"
proof -
  have h: "distinct (map fst acc) \<Longrightarrow>
    distinct (map fst (fold (\<lambda>(rnk, nm) by_rank.
             if 1 \<le> rnk \<and> rnk \<le> 30 \<and> map_of by_rank rnk = None
             then AList.update rnk nm by_rank else by_rank) cs acc))" for cs acc
    by (induction cs arbitrary: acc) (auto simp: distinct_update)
  show ?thesis unfolding strategy2_def by (rule h) simp
qed

lemma line_scan_distinct:
  "distinct (map fst by_rank) \<Longrightarrow> distinct (map fst (line_scan rnk by_rank lines))"
proof (induction lines arbitrary: by_rank)
  case Nil
  then show ?case by simp
next
  case (Cons l rest)
  show ?case
  proof (cases "team_in (join '' '' (take 3 (l # rest)))")
    case None
    with Cons show ?thesis by (simp add: Let_def)
  next
    case (Some t)
    from Cons.prems have "distinct (map fst (AList.update rnk t by_rank))"
      by (rule distinct_update)
    with Some Cons show ?thesis by (simp add: Let_def)
  qed
qed

lemma strategy3_distinct:
  "distinct (map fst by_rank) \<Longrightarrow> distinct (map fst (strategy3 lines top_n by_rank))"
proof -
  have h: "distinct (map fst b) \<Longrightarrow>
    distinct (map fst (fold (\<lambda>rnk by_rank. line_scan rnk by_rank lines) ks b))" for ks b
    by (induction ks arbitrary: b) (auto simp: line_scan_distinct)
  show "distinct (map fst by_rank) \<Longrightarrow> ?thesis" unfolding strategy3_def by (rule h)
qed

lemma in_range_complete:
  assumes "distinct (map fst d)"
  shows "top_n \<le> int (length (filter (\<lambda>k. 1 \<le> k \<and> k \<le> top_n) (map fst d))) \<longleftrightarrow>
     (\<forall>r\<in>{1..top_n}. map_of d r \<noteq> None)"
proof -
  let ?ks = "filter (\<lambda>k. 1 \<le> k \<and> k \<le> top_n) (map fst d)"
  have "distinct ?ks" using assms by simp
  moreover have "set ?ks \<subseteq> {1..top_n}" by auto
  ultimately have "top_n \<le> int (length ?ks) \<longleftrightarrow> {1..top_n} \<subseteq> set ?ks"
    by (rule keys_complete)
  also have "\<dots> \<longleftrightarrow> (\<forall>r\<in>{1..top_n}. r \<in> set (map fst d))"
    by auto
  also have "\<dots> \<longleftrightarrow> (\<forall>r\<in>{1..top_n}. map_of d r \<noteq> None)"
    by (simp only: map_of_None_iff_keys)
  finally show ?thesis .
qed

lemma slice_to_subset: "set (slice_to n xs) \<subseteq> set xs"
  by (auto simp: slice_to_def dest: in_set_takeD)

lemma extract_ranks_result:
  fixes nodes blocks body url top_n
  defines "by3 \<equiv> strategy3 (map strip (splitlines body)) top_n (strategy2 blocks)"
  assumes "extract_ranks nodes blocks body url top_n = (strategies, res)"
  shows "(strategies = [MarkerAdjacency] \<and>
           (\<exists>names. res = Inr names \<and>
              map (\<lambda>r. marker_scan r nodes) [1..top_n] = map Some names)) \<or>
         (strategies = [MarkerAdjacency, OrdinalPrefix] \<and>
           (\<exists>names. res = Inr names \<and>
              map (map_of (strategy2 blocks)) (slice_to top_n (sort (map fst (strategy2 blocks))))
                = map Some names)) \<or>
         (strategies = [MarkerAdjacency, OrdinalPrefix, LineWindow] \<and>
           ((\<exists>names. res = Inr names \<and> map (map_of by3) [1..top_n] = map Some names) \<or>
            (res = Inl (RuntimeError (''Could not extract top '' @ str_int top_n @
                            '' teams from the article at '' @ url)) \<and>
             (\<exists>r\<in>{1..top_n}. map_of by3 r = None))))"
proof (cases "top_n \<le> int (length (strategy1 nodes top_n))")
  case True
  then have "\<forall>r\<in>{1..top_n}. marker_scan r nodes \<noteq> None"
    by (simp only: strategy1_complete)
  from extract_strategy1 [OF this, of blocks body url] assms(2) show ?thesis by auto
next
  case s1: False
  show ?thesis
  proof (cases "strategy2 blocks \<noteq> [] \<and> top_n \<le> int (length (strategy2 blocks))")
    case True
    let ?ks = "slice_to top_n (sort (map fst (strategy2 blocks)))"
    have "\<forall>r\<in>set ?ks. map_of (strategy2 blocks) r \<noteq> None"
      using slice_to_subset [of top_n "sort (map fst (strategy2 blocks))"]
      by (auto simp only: map_of_None_iff_keys set_sort)
    from lookup_all_Inr [OF this] obtain names where
      "lookup_all (strategy2 blocks) ?ks = Inr names"
      "map (map_of (strategy2 blocks)) ?ks = map Some names" by blast
    with s1 True assms(2) show ?thesis
      by (auto simp: extract_ranks_def Let_def)
  next
    case s2: False
    have d: "distinct (map fst by3)"
      unfolding by3_def by (intro strategy3_distinct strategy2_distinct)
    show ?thesis
    proof (cases "top_n \<le> int (length (filter (\<lambda>k. 1 \<le> k \<and> k \<le> top_n) (map fst by3)))")
      case True
      then have "\<forall>r\<in>set [1..top_n]. map_of by3 r \<noteq> None"
        using in_range_complete [OF d, of top_n] by simp
      from lookup_all_Inr [OF this] obtain names where
        "lookup_all by3 [1..top_n] = Inr names" "map (map_of by3) [1..top_n] = map Some names"
        by blast
      with s1 s2 True assms(2) show ?thesis
        unfolding by3_def by (auto simp: extract_ranks_def Let_def)
    next
      case False
      then have "\<exists>r\<in>{1..top_n}. map_of by3 r = None"
        using in_range_complete [OF d, of top_n] by auto
      with s1 s2 False assms(2) show ?thesis
        unfolding by3_def by (auto simp: extract_ranks_def Let_def)
    qed
  qed
qed

subsection \<open>The cascade on the example documents\<close>

lemma marked_scans:
  "marker_scan 1 (descendants doc_marked) = Some ''Boston Celtics''"
  "marker_scan 2 (descendants doc_marked) = Some ''Denver Nuggets''"
  by code_simp+

theorem strategy1_short_circuit_witness:
  "marker_scan 1 (descendants doc_marked) \<noteq> None \<and>
   marker_scan 2 (descendants doc_marked) \<noteq> None \<and>
   parse_top_teams_traced doc_marked ''https://www.nba.com/news/power-rankings-week-3'' 2
     = ([MarkerAdjacency], Inr [''Boston Celtics'', ''Denver Nuggets''])"
proof -
  have "{1..2::int} = {1, 2}" by auto
  then have h: "\<forall>r\<in>{1..2}. marker_scan r (descendants doc_marked) \<noteq> None"
    by (simp add: marked_scans)
  have u: "[1..2::int] = [1, 2]" by (simp add: upto_rec1)
  from strategy1_short_circuit [OF h, of "''https://www.nba.com/news/power-rankings-week-3''"]
  show ?thesis
    by (auto simp: u marked_scans)
qed

text \<open>
  Claim C1 says that a returned list is exactly the entities of the ranks 1..N. Through
  Strategies 1 and 3 it is (\<open>extract_ranks_result\<close> above, which also shows that the
  only error is the extraction error with the URL, raised when a rank in 1..N is still
  missing after Strategy 3). Through Strategy 2 it need not be: that path returns the N
  lowest ranks it found among 1..30. Here no marker is present and the headings carry the
  ranks 2 to 5, so the four names returned for N = 4 are those of the ranks 2..5 and
  rank 1 is unresolved.
\<close>

theorem strategy2_skips_rank_one:
  "parse_top_teams_traced doc_from_two ''https://www.nba.com/news/power-rankings-week-3'' 4
     = ([MarkerAdjacency, OrdinalPrefix],
        Inr [''Boston Celtics'', ''Denver Nuggets'', ''Miami Heat'', ''Utah Jazz'']) \<and>
   strategy1 (descendants doc_from_two) 4 = [] \<and>
   strategy2 (find_all BLOCK_TAGS doc_from_two)
     = [(2, ''Boston Celtics''), (3, ''Denver Nuggets''), (4, ''Miami Heat''), (5, ''Utah Jazz'')]"
  by code_simp





end
